theory Spec2Isabelle
  imports Complex_Main
begin

section \<open>Brick Shooter: the round simulation of app.py\<close>

text \<open>
  The script keeps its whole state in module-level variables and advances it once per
  iteration of the main loop. The model below passes that state explicitly as the record
  \<open>game\<close>; every function of the script is a function on it, and one iteration of the
  main loop is \<open>frame\<close>.

  Python's floats (ball positions, velocities, angles) are modelled as real numbers:
  rounding is not modelled. Python's ints are \<open>int\<close>.
\<close>

subsection \<open>Configuration\<close>

definition SCREEN_WIDTH :: int where "SCREEN_WIDTH = 300"
definition SCREEN_HEIGHT :: int where "SCREEN_HEIGHT = 500"
definition BRICK_SIZE :: int where "BRICK_SIZE = 50"
definition BRICK_COLS :: int where "BRICK_COLS = SCREEN_WIDTH div BRICK_SIZE"
definition MAX_ROWS :: int where "MAX_ROWS = SCREEN_HEIGHT div BRICK_SIZE"
definition BALL_RADIUS :: int where "BALL_RADIUS = 5"
definition BALL_SPEED :: int where "BALL_SPEED = 12"

lemmas config_defs =
  SCREEN_WIDTH_def SCREEN_HEIGHT_def BRICK_SIZE_def BRICK_COLS_def MAX_ROWS_def
  BALL_RADIUS_def BALL_SPEED_def

subsection \<open>Utility functions\<close>

text \<open>\<^verbatim>\<open>clamp(val, min_val, max_val) = max(min_val, min(val, max_val))\<close>\<close>

definition clamp :: "real \<Rightarrow> real \<Rightarrow> real \<Rightarrow> real" where
  "clamp val min_val max_val = max min_val (min val max_val)"

definition get_ball_count :: "int \<Rightarrow> int" where
  "get_ball_count lvl = 2 * lvl"

text \<open>\<^verbatim>\<open>normalize(vx, vy)\<close>: the zero vector is returned unchanged.\<close>

definition normalize_vec :: "real \<Rightarrow> real \<Rightarrow> real \<times> real" where
  "normalize_vec vx vy =
     (let mag = sqrt (vx * vx + vy * vy)
      in if mag = 0 then (0, 0) else (vx / mag, vy / mag))"

text \<open>
  \<^verbatim>\<open>math.copysign(1, v)\<close>: the sign of \<open>v\<close> on the magnitude 1. (A float \<open>-0.0\<close>
  gives \<open>-1\<close>; the reals have one zero, taken as positive.)
\<close>

definition copysign1 :: "real \<Rightarrow> real" where
  "copysign1 v = (if v < 0 then - 1 else 1)"

text \<open>\<^verbatim>\<open>math.atan2(y, x)\<close>, the angle of the point \<open>(x, y)\<close> in \<open>(-pi, pi]\<close>.\<close>

definition atan2 :: "real \<Rightarrow> real \<Rightarrow> real" where
  "atan2 yy xx =
     (if xx > 0 then arctan (yy / xx)
      else if xx < 0 \<and> yy \<ge> 0 then arctan (yy / xx) + pi
      else if xx < 0 then arctan (yy / xx) - pi
      else if yy > 0 then pi / 2
      else if yy < 0 then - (pi / 2)
      else 0)"

text \<open>\<^verbatim>\<open>int(v)\<close> on a float truncates towards zero.\<close>

definition py_int :: "real \<Rightarrow> int" where
  "py_int v = (if v \<ge> 0 then \<lfloor>v\<rfloor> else \<lceil>v\<rceil>)"

subsection \<open>Balls\<close>

record ball =
  ball_x :: real
  ball_y :: real
  ball_angle :: real
  ball_dx :: real
  ball_dy :: real
  ball_active :: bool
  ball_launched :: bool
  ball_delay :: int
  ball_collision_cooldown :: int

text \<open>\<^verbatim>\<open>Ball.__init__(self, x, y, angle)\<close>\<close>

definition Ball :: "real \<Rightarrow> real \<Rightarrow> real \<Rightarrow> ball" where
  "Ball px py ang =
     \<lparr> ball_x = px, ball_y = py, ball_angle = ang,
       ball_dx = real_of_int BALL_SPEED * cos ang,
       ball_dy = - real_of_int BALL_SPEED * sin ang,
       ball_active = True, ball_launched = False, ball_delay = 0,
       ball_collision_cooldown = 0 \<rparr>"

text \<open>\<^verbatim>\<open>Ball.update(self)\<close>, one statement of the source per \<open>let\<close>.\<close>

definition Ball_update :: "ball \<Rightarrow> ball" where
  "Ball_update b =
     (let b1 = (if ball_collision_cooldown b > 0
                then b\<lparr>ball_collision_cooldown := ball_collision_cooldown b - 1\<rparr> else b);
          b2 = b1\<lparr>ball_x := ball_x b1 + ball_dx b1\<rparr>;
          b3 = b2\<lparr>ball_y := ball_y b2 + ball_dy b2\<rparr>;
          b4 = (if ball_x b3 - real_of_int BALL_RADIUS \<le> 0
                then b3\<lparr>ball_x := real_of_int BALL_RADIUS, ball_dx := - ball_dx b3\<rparr>
                else if ball_x b3 + real_of_int BALL_RADIUS \<ge> real_of_int SCREEN_WIDTH
                then b3\<lparr>ball_x := real_of_int (SCREEN_WIDTH - BALL_RADIUS),
                        ball_dx := - ball_dx b3\<rparr>
                else b3);
          b5 = (if ball_y b4 - real_of_int BALL_RADIUS \<le> 0
                then b4\<lparr>ball_y := real_of_int BALL_RADIUS, ball_dy := - ball_dy b4\<rparr>
                else b4)
      in if ball_y b5 + real_of_int BALL_RADIUS \<ge> real_of_int SCREEN_HEIGHT
         then b5\<lparr>ball_active := False,
                 ball_y := real_of_int (SCREEN_HEIGHT - BALL_RADIUS)\<rparr>
         else b5)"

subsection \<open>Bricks and their rectangles\<close>

record brick =
  brick_col :: int
  brick_row :: int
  brick_value :: int
  brick_max_value :: int

text \<open>\<^verbatim>\<open>Brick.__init__(self, col, row, value)\<close>\<close>

definition Brick :: "int \<Rightarrow> int \<Rightarrow> int \<Rightarrow> brick" where
  "Brick c r v = \<lparr> brick_col = c, brick_row = r, brick_value = v, brick_max_value = v \<rparr>"

text \<open>
  \<^verbatim>\<open>pygame.Rect(left, top, width, height)\<close> with its derived attributes
  \<^verbatim>\<open>right = left + width\<close> and \<^verbatim>\<open>bottom = top + height\<close>. \<^verbatim>\<open>collidepoint\<close> holds for a
  point inside the rectangle; points on the right and bottom edges are outside.
\<close>

record rect =
  rect_left :: int
  rect_top :: int
  rect_width :: int
  rect_height :: int

definition rect_right :: "rect \<Rightarrow> int" where
  "rect_right r = rect_left r + rect_width r"

definition rect_bottom :: "rect \<Rightarrow> int" where
  "rect_bottom r = rect_top r + rect_height r"

definition collidepoint :: "rect \<Rightarrow> real \<Rightarrow> real \<Rightarrow> bool" where
  "collidepoint r px py \<longleftrightarrow>
     real_of_int (rect_left r) \<le> px \<and> px < real_of_int (rect_right r) \<and>
     real_of_int (rect_top r) \<le> py \<and> py < real_of_int (rect_bottom r)"

text \<open>\<^verbatim>\<open>Brick.rect\<close>: the cell with a 1-pixel padding on all sides.\<close>

definition brick_rect :: "brick \<Rightarrow> rect" where
  "brick_rect br =
     \<lparr> rect_left = brick_col br * BRICK_SIZE + 1,
       rect_top = brick_row br * BRICK_SIZE + 1,
       rect_width = BRICK_SIZE - 2,
       rect_height = BRICK_SIZE - 2 \<rparr>"

subsection \<open>Collision detection and resolution\<close>

definition ball_colliding_brick :: "ball \<Rightarrow> brick \<Rightarrow> bool" where
  "ball_colliding_brick b br =
     (let r = brick_rect br;
          closest_x = clamp (ball_x b) (real_of_int (rect_left r)) (real_of_int (rect_right r));
          closest_y = clamp (ball_y b) (real_of_int (rect_top r)) (real_of_int (rect_bottom r));
          ddx = ball_x b - closest_x;
          ddy = ball_y b - closest_y
      in ddx * ddx + ddy * ddy < real_of_int (BALL_RADIUS * BALL_RADIUS))"

text \<open>
  The first half of \<^verbatim>\<open>resolve_collision\<close>: the ball pushed out of the rectangle, and the
  normal of the surface it is taken to have hit.
\<close>

definition push_out :: "ball \<Rightarrow> rect \<Rightarrow> ball \<times> (real \<times> real)" where
  "push_out b r =
     (if collidepoint r (ball_x b) (ball_y b) then
        let left_pen = ball_x b - real_of_int (rect_left r);
            right_pen = real_of_int (rect_right r) - ball_x b;
            top_pen = ball_y b - real_of_int (rect_top r);
            bottom_pen = real_of_int (rect_bottom r) - ball_y b;
            min_pen = min (min (min left_pen right_pen) top_pen) bottom_pen
        in if min_pen = left_pen
           then (b\<lparr>ball_x := real_of_int (rect_left r - BALL_RADIUS)\<rparr>, (- 1, 0))
           else if min_pen = right_pen
           then (b\<lparr>ball_x := real_of_int (rect_right r + BALL_RADIUS)\<rparr>, (1, 0))
           else if min_pen = top_pen
           then (b\<lparr>ball_y := real_of_int (rect_top r - BALL_RADIUS)\<rparr>, (0, - 1))
           else (b\<lparr>ball_y := real_of_int (rect_bottom r + BALL_RADIUS)\<rparr>, (0, 1))
      else
        let closest_x = clamp (ball_x b) (real_of_int (rect_left r)) (real_of_int (rect_right r));
            closest_y = clamp (ball_y b) (real_of_int (rect_top r)) (real_of_int (rect_bottom r));
            ddx = ball_x b - closest_x;
            ddy = ball_y b - closest_y;
            d0 = sqrt (ddx * ddx + ddy * ddy);
            normal = (if d0 = 0
                      then (if \<bar>ball_dx b\<bar> > \<bar>ball_dy b\<bar>
                            then (copysign1 (ball_dx b), 0)
                            else (0, copysign1 (ball_dy b)))
                      else (ddx / d0, ddy / d0));
            d = (if d0 = 0 then 1 / 1000 else d0)
        in if d < real_of_int BALL_RADIUS
           then let correction = real_of_int BALL_RADIUS - d
                in (b\<lparr>ball_x := ball_x b + fst normal * correction,
                       ball_y := ball_y b + snd normal * correction\<rparr>, normal)
           else (b, normal))"

text \<open>
  \<^verbatim>\<open>resolve_collision(ball, brick)\<close>: push out, reflect the velocity about the normal,
  and rescale it to \<^verbatim>\<open>BALL_SPEED\<close>.
\<close>

definition resolve_collision :: "ball \<Rightarrow> brick \<Rightarrow> ball" where
  "resolve_collision b br =
     (let (b1, normal) = push_out b (brick_rect br);
          dot = ball_dx b1 * fst normal + ball_dy b1 * snd normal;
          vx = ball_dx b1 - 2 * dot * fst normal;
          vy = ball_dy b1 - 2 * dot * snd normal;
          (ndx, ndy) = normalize_vec vx vy
      in b1\<lparr>ball_dx := ndx * real_of_int BALL_SPEED,
             ball_dy := ndy * real_of_int BALL_SPEED\<rparr>)"

subsection \<open>The global game state\<close>

text \<open>An entry of \<^verbatim>\<open>dying_bricks\<close>: the dict \<^verbatim>\<open>{'brick': brick, 'timer': 30}\<close>.\<close>

record dying_item =
  item_brick :: brick
  item_timer :: int

text \<open>
  The module-level variables of the script. The last two fields stand for the state of
  Python's \<^verbatim>\<open>random\<close> module: \<open>rng_outcomes s k\<close> is what the \<open>k\<close>-th call of
  \<^verbatim>\<open>spawn_new_row\<close> draws (the result of \<^verbatim>\<open>random.randint(1, 4)\<close> and the list returned by
  \<^verbatim>\<open>random.sample(range(BRICK_COLS), count)\<close>), and \<open>rng_calls\<close> counts the calls made.
\<close>

record game =
  score :: int
  high_score :: int
  lives :: int
  highest_level :: int
  lives_flash_timer :: int
  dying_bricks :: "dying_item list"
  level :: int
  base_ball_count :: int
  balls_to_fire :: "ball list"
  returned_ball_positions :: "real list"
  base_x :: int
  aim_angle :: real
  firing :: bool
  launch_start :: int
  bricks :: "brick list"
  frame_count :: int
  running :: bool
  game_over :: bool
  rng_outcomes :: "nat \<Rightarrow> int \<times> int list"
  rng_calls :: nat

text \<open>
  What the library promises of one draw: \<^verbatim>\<open>randint(1, 4)\<close> lies in \<open>[1, 4]\<close>, and
  \<^verbatim>\<open>sample(range(BRICK_COLS), count)\<close> is a list of \<open>count\<close> distinct elements of the range.
\<close>

definition draw_ok :: "int \<times> int list \<Rightarrow> bool" where
  "draw_ok d \<longleftrightarrow>
     (case d of (count, cols) \<Rightarrow>
        1 \<le> count \<and> count \<le> 4 \<and> int (length cols) = count \<and> distinct cols \<and>
        list_all (\<lambda>c. 0 \<le> c \<and> c < BRICK_COLS) cols)"

definition rng_ok :: "(nat \<Rightarrow> int \<times> int list) \<Rightarrow> bool" where
  "rng_ok f \<longleftrightarrow> (\<forall>k. draw_ok (f k))"

subsection \<open>The brick grid\<close>

definition spawn_new_row :: "game \<Rightarrow> game" where
  "spawn_new_row s =
     (let (count, cols) = rng_outcomes s (rng_calls s)
      in s\<lparr>bricks := bricks s @ map (\<lambda>c. Brick c 1 (level s)) cols,
            rng_calls := rng_calls s + 1\<rparr>)"

definition move_bricks_down :: "game \<Rightarrow> game" where
  "move_bricks_down s =
     s\<lparr>bricks := map (\<lambda>br. br\<lparr>brick_row := brick_row br + 1\<rparr>) (bricks s)\<rparr>"

definition remove_bottom_rows :: "int \<Rightarrow> game \<Rightarrow> game" where
  "remove_bottom_rows n s =
     (let threshold = MAX_ROWS - n;
          dying = filter (\<lambda>br. brick_row br \<ge> threshold) (bricks s)
      in s\<lparr>dying_bricks :=
              dying_bricks s @ map (\<lambda>br. \<lparr>item_brick = br, item_timer = 30\<rparr>) dying,
            bricks := filter (\<lambda>br. brick_row br < threshold) (bricks s)\<rparr>)"

text \<open>
  \<^verbatim>\<open>check_bricks_bottom\<close>: the \<^verbatim>\<open>for\<close> loop over the bricks, left by \<^verbatim>\<open>break\<close> at the
  first brick with \<^verbatim>\<open>row >= 9\<close>.
\<close>

fun check_bricks_loop :: "brick list \<Rightarrow> game \<Rightarrow> game" where
  "check_bricks_loop [] s = s"
| "check_bricks_loop (br # brs) s =
     (if brick_row br \<ge> 9
      then remove_bottom_rows 3 (s\<lparr>lives := lives s - 1, lives_flash_timer := 30\<rparr>)
      else check_bricks_loop brs s)"

definition check_bricks_bottom :: "game \<Rightarrow> game" where
  "check_bricks_bottom s = check_bricks_loop (bricks s) s"

subsection \<open>Rounds\<close>

definition reset_for_next_turn :: "game \<Rightarrow> game" where
  "reset_for_next_turn s =
     (let s1 = (case returned_ball_positions s of
                  [] \<Rightarrow> s
                | new_base_x # _ \<Rightarrow>
                    s\<lparr>base_x := max BALL_RADIUS
                                 (min (SCREEN_WIDTH - BALL_RADIUS) (py_int new_base_x))\<rparr>);
          s2 = s1\<lparr>level := level s1 + 1\<rparr>;
          s3 = (if level s2 > highest_level s2 then s2\<lparr>highest_level := level s2\<rparr> else s2);
          s4 = s3\<lparr>base_ball_count := get_ball_count (level s3)\<rparr>;
          s5 = move_bricks_down s4;
          s6 = spawn_new_row s5
      in s6\<lparr>balls_to_fire := [], returned_ball_positions := [], firing := False\<rparr>)"

text \<open>
  \<^verbatim>\<open>fire_balls\<close>: one ball per \<^verbatim>\<open>i in range(base_ball_count)\<close>, ball \<open>i\<close> waiting until frame
  \<^verbatim>\<open>launch_start + i * launch_delay\<close>.
\<close>

definition fire_balls :: "game \<Rightarrow> game" where
  "fire_balls s =
     (let launch_delay = 5;
          start = frame_count s
      in s\<lparr>firing := True,
            launch_start := start,
            balls_to_fire :=
              map (\<lambda>i. (Ball (real_of_int (base_x s))
                              (real_of_int (SCREEN_HEIGHT - BALL_RADIUS)) (aim_angle s))
                         \<lparr>ball_delay := start + int i * launch_delay,
                          ball_launched := False\<rparr>)
                  [0 ..< nat (base_ball_count s)]\<rparr>)"

definition new_game :: "game \<Rightarrow> game" where
  "new_game s =
     (let s1 = s\<lparr>level := 1\<rparr>;
          s2 = s1\<lparr>base_ball_count := get_ball_count (level s1),
                 balls_to_fire := [],
                 returned_ball_positions := [],
                 base_x := SCREEN_WIDTH div 2,
                 aim_angle := pi / 4,
                 firing := False,
                 launch_start := 0,
                 lives := 3,
                 score := 0,
                 bricks := [],
                 dying_bricks := [],
                 highest_level := 1,
                 lives_flash_timer := 0\<rparr>;
          s3 = spawn_new_row s2
      in s3\<lparr>frame_count := 0, game_over := False\<rparr>)"

subsection \<open>The collision loop of one ball\<close>

text \<open>
  The \<^verbatim>\<open>for brick in bricks[:]\<close> scan: the first brick that the ball overlaps loses a hit
  point, the ball is resolved against it, the brick leaves the list when its value is
  \<open>\<le> 0\<close>, and the scan stops (\<^verbatim>\<open>break\<close>). \<open>None\<close> when no brick overlaps.
\<close>

fun first_collision :: "ball \<Rightarrow> brick list \<Rightarrow> (ball \<times> brick list) option" where
  "first_collision b [] = None"
| "first_collision b (br # brs) =
     (if ball_colliding_brick b br then
        let br' = br\<lparr>brick_value := brick_value br - 1\<rparr>;
            b' = resolve_collision (b\<lparr>ball_collision_cooldown := 10\<rparr>) br'
        in Some (b', if brick_value br' \<le> 0 then brs else br' # brs)
      else map_option (\<lambda>(b', brs'). (b', br # brs')) (first_collision b brs))"

text \<open>One pass of the \<^verbatim>\<open>while\<close> body, with the score bookkeeping of a hit.\<close>

definition collision_pass :: "ball \<Rightarrow> game \<Rightarrow> (ball \<times> game) option" where
  "collision_pass b s =
     (case first_collision b (bricks s) of
        None \<Rightarrow> None
      | Some (b', brs') \<Rightarrow>
          let s1 = s\<lparr>score := score s + 10\<rparr>;
              s2 = (if score s1 > high_score s1 then s1\<lparr>high_score := score s1\<rparr> else s1)
          in Some (b', s2\<lparr>bricks := brs'\<rparr>))"

text \<open>
  \<^verbatim>\<open>while collision_found and iterations < max_iterations\<close>, with \<^verbatim>\<open>max_iterations = 10\<close>.
  The result carries the final value of \<^verbatim>\<open>iterations\<close>.
\<close>

function collision_loop :: "nat \<Rightarrow> ball \<Rightarrow> game \<Rightarrow> ball \<times> game \<times> nat" where
  "collision_loop iterations b s =
     (if iterations < 10 then
        (case collision_pass b s of
           None \<Rightarrow> (b, s, iterations + 1)
         | Some (b', s') \<Rightarrow> collision_loop (iterations + 1) b' s')
      else (b, s, iterations))"
  by pat_completeness auto
termination
  by (relation "measure (\<lambda>(iterations, b, s). 10 - iterations)") auto

declare collision_loop.simps [simp del]

subsection \<open>One iteration of the main loop\<close>

text \<open>
  \<^verbatim>\<open>for ball in balls_to_fire: if ball.launched and ball.active: ...\<close>: each ball in turn is
  moved and run through its collision loop.
\<close>

fun update_balls :: "ball list \<Rightarrow> game \<Rightarrow> ball list \<times> game" where
  "update_balls [] s = ([], s)"
| "update_balls (b # bs) s =
     (if ball_launched b \<and> ball_active b then
        (case collision_loop 0 (Ball_update b) s of
           (b', s', _) \<Rightarrow>
             (case update_balls bs s' of (bs', s'') \<Rightarrow> (b' # bs', s'')))
      else (case update_balls bs s of (bs', s'') \<Rightarrow> (b # bs', s'')))"

text \<open>
  The block under \<^verbatim>\<open>if firing:\<close>. Its first loop marks as launched every ball whose
  delay has passed.
\<close>

definition launch_due :: "game \<Rightarrow> game" where
  "launch_due s =
     s\<lparr>balls_to_fire :=
         map (\<lambda>b. if \<not> ball_launched b \<and> frame_count s \<ge> ball_delay b
                   then b\<lparr>ball_launched := True\<rparr> else b) (balls_to_fire s)\<rparr>"

definition round_over :: "ball list \<Rightarrow> bool" where
  "round_over balls = list_all (\<lambda>b. ball_launched b \<and> \<not> ball_active b) balls"

definition firing_step :: "game \<Rightarrow> game" where
  "firing_step s =
     (let s0 = launch_due s;
          (balls, s1) = update_balls (balls_to_fire s0) s0;
          s2 = s1\<lparr>balls_to_fire := balls\<rparr>
      in if round_over (balls_to_fire s2)
         then (reset_for_next_turn
                 (s2\<lparr>returned_ball_positions :=
                       returned_ball_positions s2 @ map ball_x (balls_to_fire s2)\<rparr>))
              \<lparr>frame_count := 0\<rparr>
         else s2)"

datatype key = K_LEFT | K_RIGHT | K_SPACE | K_OTHER

text \<open>
  The events of \<^verbatim>\<open>pygame.event.get()\<close> that the loop looks at. A \<^verbatim>\<open>MOUSEMOTION\<close> carries the
  position that \<^verbatim>\<open>pygame.mouse.get_pos()\<close> returns while it is handled.
\<close>

datatype event = QUIT | KEYDOWN key | MOUSEMOTION int int | OTHER_EVENT

definition handle_event :: "event \<Rightarrow> game \<Rightarrow> game" where
  "handle_event e s =
     (let s1 = (if e = QUIT then s\<lparr>running := False\<rparr> else s)
      in if \<not> game_over s1 then
           (case e of
              KEYDOWN K_LEFT \<Rightarrow>
                (let s2 = s1\<lparr>base_x := base_x s1 - 10\<rparr>
                 in if base_x s2 < BALL_RADIUS then s2\<lparr>base_x := BALL_RADIUS\<rparr> else s2)
            | KEYDOWN K_RIGHT \<Rightarrow>
                (let s2 = s1\<lparr>base_x := base_x s1 + 10\<rparr>
                 in if base_x s2 > SCREEN_WIDTH - BALL_RADIUS
                    then s2\<lparr>base_x := SCREEN_WIDTH - BALL_RADIUS\<rparr> else s2)
            | KEYDOWN K_SPACE \<Rightarrow> (if \<not> firing s1 then fire_balls s1 else s1)
            | KEYDOWN K_OTHER \<Rightarrow> s1
            | MOUSEMOTION mx my \<Rightarrow>
                (let ddx = mx - base_x s1;
                     ddy0 = (SCREEN_HEIGHT - BALL_RADIUS) - my;
                     ddy = (if ddy0 \<le> 0 then 1 else ddy0)
                 in s1\<lparr>aim_angle := atan2 (real_of_int ddy) (real_of_int ddx)\<rparr>)
            | _ \<Rightarrow> s1)
         else
           (case e of KEYDOWN K_SPACE \<Rightarrow> new_game s1 | _ \<Rightarrow> s1))"

text \<open>The fade-out of the dying bricks at the end of a frame.\<close>

definition tick_dying :: "dying_item list \<Rightarrow> dying_item list" where
  "tick_dying items =
     filter (\<lambda>it. \<not> item_timer it \<le> 0)
       (map (\<lambda>it. it\<lparr>item_timer := item_timer it - 1\<rparr>) items)"

text \<open>The block under \<^verbatim>\<open>if not game_over:\<close> after the events.\<close>

definition play_step :: "game \<Rightarrow> game" where
  "play_step s =
     (let s1 = (if firing s then firing_step s else s);
          s2 = check_bricks_bottom s1
      in if lives s2 \<le> 0 then s2\<lparr>game_over := True\<rparr> else s2)"

text \<open>The body of \<^verbatim>\<open>while running:\<close>, drawing left out.\<close>

definition frame :: "event list \<Rightarrow> game \<Rightarrow> game" where
  "frame evs s =
     (let s1 = s\<lparr>frame_count := frame_count s + 1\<rparr>;
          s2 = foldl (\<lambda>st e. handle_event e st) s1 evs;
          s3 = (if \<not> game_over s2 then play_step s2 else s2);
          s4 = (if lives_flash_timer s3 > 0
                then s3\<lparr>lives_flash_timer := lives_flash_timer s3 - 1\<rparr> else s3)
      in s4\<lparr>dying_bricks := tick_dying (dying_bricks s4)\<rparr>)"

text \<open>
  The state before the first frame: the module-level initialisation followed by the
  first \<^verbatim>\<open>spawn_new_row()\<close>.
\<close>

definition initial_game :: "(nat \<Rightarrow> int \<times> int list) \<Rightarrow> game" where
  "initial_game f =
     spawn_new_row
       \<lparr> score = 0, high_score = 0, lives = 3, highest_level = 1, lives_flash_timer = 0,
         dying_bricks = [], level = 1, base_ball_count = get_ball_count 1,
         balls_to_fire = [], returned_ball_positions = [],
         base_x = SCREEN_WIDTH div 2, aim_angle = pi / 4, firing = False,
         launch_start = 0, bricks = [], frame_count = 0, running = True,
         game_over = False, rng_outcomes = f, rng_calls = 0 \<rparr>"

text \<open>The states the program can be in between two frames.\<close>

inductive reachable :: "game \<Rightarrow> bool" where
  init: "rng_ok f \<Longrightarrow> reachable (initial_game f)"
| step: "reachable s \<Longrightarrow> running s \<Longrightarrow> reachable (frame evs s)"

subsection \<open>Predicates used in the proofs\<close>

text \<open>
  \<open>hits_only s s'\<close>: \<open>s'\<close> differs from \<open>s\<close> at most in the score, the high score and
  the bricks, the three variables that the collision loop writes.
\<close>

definition hits_only :: "game \<Rightarrow> game \<Rightarrow> bool" where
  "hits_only s s' \<longleftrightarrow>
     lives s' = lives s \<and>
     game_over s' = game_over s \<and>
     highest_level s' = highest_level s \<and>
     lives_flash_timer s' = lives_flash_timer s \<and>
     dying_bricks s' = dying_bricks s \<and>
     level s' = level s \<and>
     base_ball_count s' = base_ball_count s \<and>
     balls_to_fire s' = balls_to_fire s \<and>
     returned_ball_positions s' = returned_ball_positions s \<and>
     base_x s' = base_x s \<and>
     aim_angle s' = aim_angle s \<and>
     firing s' = firing s \<and>
     launch_start s' = launch_start s \<and>
     frame_count s' = frame_count s \<and>
     running s' = running s \<and>
     rng_outcomes s' = rng_outcomes s \<and>
     rng_calls s' = rng_calls s"

text \<open>The lives are never negative, and the game is over exactly when none is left.\<close>

definition lives_inv :: "game \<Rightarrow> bool" where
  "lives_inv s \<longleftrightarrow> 0 \<le> lives s \<and> (game_over s \<longleftrightarrow> lives s = 0)"

text \<open>The score is not negative and the high score is not below it.\<close>

definition score_inv :: "game \<Rightarrow> bool" where
  "score_inv s \<longleftrightarrow> 0 \<le> score s \<and> score s \<le> high_score s"

text \<open>The random module keeps its contract and every live brick is in a column of the grid.\<close>

definition cols_inv :: "game \<Rightarrow> bool" where
  "cols_inv s \<longleftrightarrow>
     rng_ok (rng_outcomes s) \<and>
     (\<forall>br\<in>set (bricks s). 0 \<le> brick_col br \<and> brick_col br < BRICK_COLS)"



subsection \<open>Example states\<close>

text \<open>A run of the random module in which every row is drawn as the columns 0 and 3.\<close>

definition example_rng :: "nat \<Rightarrow> int \<times> int list" where
  "example_rng k = (2, [0, 3])"

text \<open>The state before the first frame of that run.\<close>

definition example_start :: game where
  "example_start = initial_game example_rng"

text \<open>A finished game whose session reached level 5.\<close>

definition example_over :: game where
  "example_over = example_start\<lparr>lives := 0, game_over := True, highest_level := 5\<rparr>"

text \<open>Bricks in rows 3, 9, 7 and 9: two of them have reached the bottom.\<close>

definition example_breach :: game where
  "example_breach =
     example_start\<lparr>bricks := [Brick 2 3 4, Brick 1 9 2, Brick 4 7 3, Brick 0 9 1]\<rparr>"

text \<open>Two bricks side by side with 20 hit points at the start and \<open>v\<close> and \<open>w\<close> left.\<close>

definition pingpong_game :: "int \<Rightarrow> int \<Rightarrow> int \<Rightarrow> game" where
  "pingpong_game sc v w =
     example_start\<lparr>score := sc, high_score := sc, level := 20, firing := True,
       bricks := [(Brick 0 1 20)\<lparr>brick_value := v\<rparr>, (Brick 1 1 20)\<lparr>brick_value := w\<rparr>]\<rparr>"

text \<open>A ball at height 75 between the two bricks, moving up and sideways at speed 12.\<close>

definition pingpong_ball :: "real \<Rightarrow> real \<Rightarrow> ball" where
  "pingpong_ball px vx =
     \<lparr> ball_x = px, ball_y = 75, ball_angle = 0, ball_dx = vx, ball_dy = - (48 / 5),
       ball_active = True, ball_launched = True, ball_delay = 0,
       ball_collision_cooldown = 10 \<rparr>"

text \<open>
  A round in flight, in frame 10: one launched ball below the brick of column 3 (value 1),
  moving up and to the right at speed 12.
\<close>

definition example_hit :: game where
  "example_hit =
     example_start\<lparr>firing := True, frame_count := 10,
       balls_to_fire :=
         [\<lparr> ball_x = 165, ball_y = 108, ball_angle = 0, ball_dx = 36 / 5, ball_dy = - (48 / 5),
            ball_active = True, ball_launched = True, ball_delay = 0,
            ball_collision_cooldown = 0 \<rparr>]\<rparr>"


text \<open>
  The end of a round: the only ball of the shot list has come down at \<open>x = 17.5\<close>.
\<close>

definition example_returned :: game where
  "example_returned =
     example_start\<lparr>firing := True, frame_count := 90,
       balls_to_fire :=
         [\<lparr> ball_x = 35 / 2, ball_y = 495, ball_angle = 0, ball_dx = - (36 / 5),
            ball_dy = 48 / 5, ball_active = False, ball_launched = True, ball_delay = 0,
            ball_collision_cooldown = 0 \<rparr>]\<rparr>"




section \<open>Properties\<close>

subsection \<open>Rules for the two loops over balls and bricks\<close>

text \<open>
  What every pass of the collision loop preserves, the loop preserves; and what
  \<^verbatim>\<open>Ball.update\<close> and every pass preserve, the loop over the balls preserves.
\<close>

lemma collision_loop_rule:
  assumes pass: "\<And>b s b' s'. collision_pass b s = Some (b', s') \<Longrightarrow> P b s \<Longrightarrow> P b' s'"
  shows "P b s \<Longrightarrow> collision_loop i b s = (b', s', n) \<Longrightarrow> P b' s'"
proof (induction i b s rule: collision_loop.induct)
  case (1 iterations b s)
  show ?case
  proof (cases "iterations < 10")
    case False
    with "1.prems" show ?thesis by (simp add: collision_loop.simps)
  next
    case True
    show ?thesis
    proof (cases "collision_pass b s")
      case None
      with True "1.prems" show ?thesis by (simp add: collision_loop.simps)
    next
      case (Some p)
      obtain b1 s1 where p: "p = (b1, s1)" by (cases p)
      from Some p True "1.prems"(2) have loop: "collision_loop (iterations + 1) b1 s1 = (b', s', n)"
        by (simp add: collision_loop.simps)
      from pass Some p "1.prems"(1) have "P b1 s1" by blast
      with "1.IH" True Some p loop show ?thesis by blast
    qed
  qed
qed

lemma collision_loop_count:
  "collision_loop i b s = (b', s', n) \<Longrightarrow> i \<le> 10 \<Longrightarrow>
     n \<le> 10 \<and> i \<le> n \<and> (collision_pass b' s' \<noteq> None \<longrightarrow> n = 10)"
proof (induction i b s rule: collision_loop.induct)
  case (1 iterations b s)
  show ?case
  proof (cases "iterations < 10")
    case False
    with "1.prems" show ?thesis by (simp add: collision_loop.simps)
  next
    case True
    show ?thesis
    proof (cases "collision_pass b s")
      case None
      with True "1.prems" show ?thesis by (auto simp add: collision_loop.simps)
    next
      case (Some p)
      obtain b1 s1 where p: "p = (b1, s1)" by (cases p)
      from Some p True "1.prems"(1) have loop: "collision_loop (iterations + 1) b1 s1 = (b', s', n)"
        by (simp add: collision_loop.simps)
      from "1.IH"[OF True Some p[symmetric] loop] True show ?thesis by simp
    qed
  qed
qed

lemma update_balls_rule:
  assumes upd: "\<And>b. B b \<Longrightarrow> B (Ball_update b)"
    and pass: "\<And>b s b' s'. collision_pass b s = Some (b', s') \<Longrightarrow> I s \<Longrightarrow> B b \<Longrightarrow> I s' \<and> B b'"
  shows "I s \<Longrightarrow> \<forall>b\<in>set bs. B b \<Longrightarrow> update_balls bs s = (bs', s') \<Longrightarrow>
         I s' \<and> (\<forall>b\<in>set bs'. B b)"
proof (induction bs arbitrary: s bs' s')
  case Nil
  then show ?case by simp
next
  case (Cons b bs)
  show ?case
  proof (cases "ball_launched b \<and> ball_active b")
    case False
    obtain bs1 s1 where rest: "update_balls bs s = (bs1, s1)" by (cases "update_balls bs s")
    with False Cons.prems(3) have eq: "bs' = b # bs1" "s' = s1" by auto
    from Cons.IH[OF Cons.prems(1) _ rest] Cons.prems(2) eq show ?thesis by simp
  next
    case True
    obtain b1 s1 n where loop: "collision_loop 0 (Ball_update b) s = (b1, s1, n)"
      by (cases "collision_loop 0 (Ball_update b) s")
    obtain bs2 s2 where rest: "update_balls bs s1 = (bs2, s2)" by (cases "update_balls bs s1")
    from True loop rest Cons.prems(3) have eq: "bs' = b1 # bs2" "s' = s2" by auto
    have "B (Ball_update b)" using upd Cons.prems(2) by simp
    with Cons.prems(1) have start: "I s \<and> B (Ball_update b)" by simp
    have "I s1 \<and> B b1"
      by (rule collision_loop_rule[where P = "\<lambda>b s. I s \<and> B b", OF _ start loop])
         (use pass in blast)
    with Cons.IH[OF _ _ rest] Cons.prems(2) eq show ?thesis by simp
  qed
qed

subsection \<open>What the collision loop leaves alone\<close>

lemma hits_only_refl: "hits_only s s"
  by (simp add: hits_only_def)

lemma hits_only_trans: "hits_only s t \<Longrightarrow> hits_only t u \<Longrightarrow> hits_only s u"
  by (simp add: hits_only_def)

lemma collision_pass_hits_only:
  "collision_pass b s = Some (b', s') \<Longrightarrow> hits_only s s'"
  by (auto simp: collision_pass_def hits_only_def Let_def split: option.splits prod.splits if_splits)

lemma update_balls_hits_only:
  assumes "update_balls bs s = (bs', s')"
  shows "hits_only s s'"
proof -
  have "hits_only s s' \<and> (\<forall>b\<in>set bs'. True)"
  proof (rule update_balls_rule[where I = "hits_only s" and B = "\<lambda>_. True", OF _ _ _ _ assms])
    fix b t b' t'
    assume "collision_pass b t = Some (b', t')" "hits_only s t"
    then show "hits_only s t' \<and> True"
      using collision_pass_hits_only hits_only_trans by blast
  qed (simp_all add: hits_only_refl)
  then show ?thesis by simp
qed

lemma hits_only_fields:
  assumes "hits_only s s'"
  shows "lives s' = lives s" "game_over s' = game_over s" "highest_level s' = highest_level s"
    "lives_flash_timer s' = lives_flash_timer s" "dying_bricks s' = dying_bricks s"
    "level s' = level s" "base_ball_count s' = base_ball_count s"
    "balls_to_fire s' = balls_to_fire s" "returned_ball_positions s' = returned_ball_positions s"
    "base_x s' = base_x s" "aim_angle s' = aim_angle s" "firing s' = firing s"
    "launch_start s' = launch_start s" "frame_count s' = frame_count s" "running s' = running s"
    "rng_outcomes s' = rng_outcomes s" "rng_calls s' = rng_calls s"
  using assms by (simp_all add: hits_only_def)

subsection \<open>The fields each function writes\<close>

lemma spawn_new_row_fields [simp]:
  "score (spawn_new_row s) = score s" "high_score (spawn_new_row s) = high_score s"
  "lives (spawn_new_row s) = lives s" "game_over (spawn_new_row s) = game_over s"
  "highest_level (spawn_new_row s) = highest_level s"
  "lives_flash_timer (spawn_new_row s) = lives_flash_timer s"
  "dying_bricks (spawn_new_row s) = dying_bricks s" "level (spawn_new_row s) = level s"
  "base_ball_count (spawn_new_row s) = base_ball_count s"
  "balls_to_fire (spawn_new_row s) = balls_to_fire s"
  "returned_ball_positions (spawn_new_row s) = returned_ball_positions s"
  "base_x (spawn_new_row s) = base_x s" "aim_angle (spawn_new_row s) = aim_angle s"
  "firing (spawn_new_row s) = firing s" "launch_start (spawn_new_row s) = launch_start s"
  "frame_count (spawn_new_row s) = frame_count s" "running (spawn_new_row s) = running s"
  "rng_outcomes (spawn_new_row s) = rng_outcomes s"
  "rng_calls (spawn_new_row s) = rng_calls s + 1"
  "bricks (spawn_new_row s) =
     bricks s @ map (\<lambda>c. Brick c 1 (level s)) (snd (rng_outcomes s (rng_calls s)))"
  by (simp_all add: spawn_new_row_def split: prod.splits)

lemma reset_for_next_turn_fields [simp]:
  "score (reset_for_next_turn s) = score s" "high_score (reset_for_next_turn s) = high_score s"
  "lives (reset_for_next_turn s) = lives s" "game_over (reset_for_next_turn s) = game_over s"
  "lives_flash_timer (reset_for_next_turn s) = lives_flash_timer s"
  "dying_bricks (reset_for_next_turn s) = dying_bricks s"
  "running (reset_for_next_turn s) = running s"
  "rng_outcomes (reset_for_next_turn s) = rng_outcomes s"
  "firing (reset_for_next_turn s) = False"
  "balls_to_fire (reset_for_next_turn s) = []"
  "returned_ball_positions (reset_for_next_turn s) = []"
  "level (reset_for_next_turn s) = level s + 1"
  "bricks (reset_for_next_turn s) =
     map (\<lambda>br. br\<lparr>brick_row := brick_row br + 1\<rparr>) (bricks s) @
     map (\<lambda>c. Brick c 1 (level s + 1)) (snd (rng_outcomes s (rng_calls s)))"
  by (simp_all add: reset_for_next_turn_def move_bricks_down_def Let_def split: list.splits)

lemma check_bricks_loop_eq:
  "check_bricks_loop brs s =
     (if \<exists>br\<in>set brs. 9 \<le> brick_row br
      then remove_bottom_rows 3 (s\<lparr>lives := lives s - 1, lives_flash_timer := 30\<rparr>)
      else s)"
  by (induction brs) auto

lemma firing_step_eq:
  assumes "update_balls (balls_to_fire (launch_due s)) (launch_due s) = (balls, s1)"
  shows "firing_step s =
     (if round_over balls
      then (reset_for_next_turn
              (s1\<lparr>balls_to_fire := balls,
                  returned_ball_positions := returned_ball_positions s1 @ map ball_x balls\<rparr>))
           \<lparr>frame_count := 0\<rparr>
      else s1\<lparr>balls_to_fire := balls\<rparr>)"
  using assms by (simp add: firing_step_def Let_def)

lemma launch_due_fields [simp]:
  "score (launch_due s) = score s" "high_score (launch_due s) = high_score s"
  "lives (launch_due s) = lives s" "game_over (launch_due s) = game_over s"
  "bricks (launch_due s) = bricks s" "rng_outcomes (launch_due s) = rng_outcomes s"
  "level (launch_due s) = level s" "firing (launch_due s) = firing s"
  "returned_ball_positions (launch_due s) = returned_ball_positions s"
  "running (launch_due s) = running s" "dying_bricks (launch_due s) = dying_bricks s"
  "lives_flash_timer (launch_due s) = lives_flash_timer s"
  "rng_calls (launch_due s) = rng_calls s" "highest_level (launch_due s) = highest_level s"
  by (simp_all add: launch_due_def)

lemma firing_step_keeps:
  "lives (firing_step s) = lives s" "game_over (firing_step s) = game_over s"
  "running (firing_step s) = running s" "rng_outcomes (firing_step s) = rng_outcomes s"
  "dying_bricks (firing_step s) = dying_bricks s"
  "lives_flash_timer (firing_step s) = lives_flash_timer s"
proof -
  obtain balls s1 where u: "update_balls (balls_to_fire (launch_due s)) (launch_due s) = (balls, s1)"
    by (cases "update_balls (balls_to_fire (launch_due s)) (launch_due s)")
  note h = hits_only_fields[OF update_balls_hits_only[OF u]]
  show "lives (firing_step s) = lives s" "game_over (firing_step s) = game_over s"
    "running (firing_step s) = running s" "rng_outcomes (firing_step s) = rng_outcomes s"
    "dying_bricks (firing_step s) = dying_bricks s"
    "lives_flash_timer (firing_step s) = lives_flash_timer s"
    by (simp_all add: firing_step_eq[OF u] h)
qed

lemma remove_bottom_rows_fields [simp]:
  "score (remove_bottom_rows n s) = score s" "high_score (remove_bottom_rows n s) = high_score s"
  "lives (remove_bottom_rows n s) = lives s" "game_over (remove_bottom_rows n s) = game_over s"
  "running (remove_bottom_rows n s) = running s"
  "rng_outcomes (remove_bottom_rows n s) = rng_outcomes s"
  "lives_flash_timer (remove_bottom_rows n s) = lives_flash_timer s"
  "balls_to_fire (remove_bottom_rows n s) = balls_to_fire s"
  "returned_ball_positions (remove_bottom_rows n s) = returned_ball_positions s"
  "level (remove_bottom_rows n s) = level s" "firing (remove_bottom_rows n s) = firing s"
  "bricks (remove_bottom_rows n s) = filter (\<lambda>br. brick_row br < MAX_ROWS - n) (bricks s)"
  "dying_bricks (remove_bottom_rows n s) =
     dying_bricks s @
     map (\<lambda>br. \<lparr>item_brick = br, item_timer = 30\<rparr>)
       (filter (\<lambda>br. MAX_ROWS - n \<le> brick_row br) (bricks s))"
  by (simp_all add: remove_bottom_rows_def Let_def)

lemma check_bricks_bottom_eq:
  "check_bricks_bottom s =
     (if \<exists>br\<in>set (bricks s). 9 \<le> brick_row br
      then remove_bottom_rows 3 (s\<lparr>lives := lives s - 1, lives_flash_timer := 30\<rparr>)
      else s)"
  by (simp add: check_bricks_bottom_def check_bricks_loop_eq)

lemma check_bricks_bottom_keeps [simp]:
  "score (check_bricks_bottom s) = score s" "high_score (check_bricks_bottom s) = high_score s"
  "game_over (check_bricks_bottom s) = game_over s" "running (check_bricks_bottom s) = running s"
  "rng_outcomes (check_bricks_bottom s) = rng_outcomes s"
  "balls_to_fire (check_bricks_bottom s) = balls_to_fire s"
  "returned_ball_positions (check_bricks_bottom s) = returned_ball_positions s"
  "level (check_bricks_bottom s) = level s" "firing (check_bricks_bottom s) = firing s"
  by (simp_all add: check_bricks_bottom_eq)

lemma check_bricks_bottom_lives:
  "lives s - 1 \<le> lives (check_bricks_bottom s)" "lives (check_bricks_bottom s) \<le> lives s"
  by (simp_all add: check_bricks_bottom_eq)

lemma play_step_lives:
  "game_over s \<or> lives s - 1 \<le> lives (play_step s)" "lives (play_step s) \<le> lives s"
  "lives (play_step s) - 1 \<le> lives s" 
  using check_bricks_bottom_lives[of "firing_step s"] check_bricks_bottom_lives[of s]
  by (auto simp: play_step_def Let_def firing_step_keeps)

lemma play_step_lives_inv:
  assumes "lives_inv s" "\<not> game_over s"
  shows "lives_inv (play_step s)"
  using assms check_bricks_bottom_lives[of "firing_step s"] check_bricks_bottom_lives[of s]
  by (auto simp: lives_inv_def play_step_def Let_def firing_step_keeps)

lemma fire_balls_fields [simp]:
  "score (fire_balls s) = score s" "high_score (fire_balls s) = high_score s"
  "lives (fire_balls s) = lives s" "game_over (fire_balls s) = game_over s"
  "bricks (fire_balls s) = bricks s" "rng_outcomes (fire_balls s) = rng_outcomes s"
  "returned_ball_positions (fire_balls s) = returned_ball_positions s"
  "firing (fire_balls s) = True"
  by (simp_all add: fire_balls_def Let_def)

lemma new_game_fields [simp]:
  "score (new_game s) = 0" "high_score (new_game s) = high_score s"
  "lives (new_game s) = 3" "game_over (new_game s) = False"
  "highest_level (new_game s) = 1" "level (new_game s) = 1"
  "rng_outcomes (new_game s) = rng_outcomes s" "balls_to_fire (new_game s) = []"
  "returned_ball_positions (new_game s) = []" "dying_bricks (new_game s) = []"
  "firing (new_game s) = False" "base_ball_count (new_game s) = 2"
  "bricks (new_game s) = map (\<lambda>c. Brick c 1 1) (snd (rng_outcomes s (rng_calls s)))"
  by (simp_all add: new_game_def Let_def get_ball_count_def)

subsection \<open>Lives\<close>

lemma handle_event_lives:
  "lives (handle_event e s) =
     (if game_over s \<and> e = KEYDOWN K_SPACE then 3 else lives s)"
  "game_over (handle_event e s) =
     (if game_over s \<and> e = KEYDOWN K_SPACE then False else game_over s)"
  by (auto simp: handle_event_def Let_def split: event.splits key.splits)

lemma handle_event_lives_inv: "lives_inv s \<Longrightarrow> lives_inv (handle_event e s)"
  by (simp add: lives_inv_def handle_event_lives)

lemma events_lives_inv:
  "lives_inv s \<Longrightarrow> lives_inv (foldl (\<lambda>st e. handle_event e st) s evs)"
  by (induction evs arbitrary: s) (simp_all add: handle_event_lives_inv)

lemma frame_lives_inv:
  assumes "lives_inv s"
  shows "lives_inv (frame evs s)"
proof -
  let ?s2 = "foldl (\<lambda>st e. handle_event e st) (s\<lparr>frame_count := frame_count s + 1\<rparr>) evs"
  have "lives_inv (s\<lparr>frame_count := frame_count s + 1\<rparr>)"
    using assms by (simp add: lives_inv_def)
  then have 2: "lives_inv ?s2" by (rule events_lives_inv)
  have "lives_inv (if \<not> game_over ?s2 then play_step ?s2 else ?s2)"
    using 2 play_step_lives_inv by simp
  then show ?thesis
    by (simp add: frame_def Let_def lives_inv_def)
qed

lemma initial_game_lives_inv: "lives_inv (initial_game f)"
  by (simp add: initial_game_def lives_inv_def)

lemma reachable_lives_inv: "reachable s \<Longrightarrow> lives_inv s"
  by (induction rule: reachable.induct) (simp_all add: initial_game_lives_inv frame_lives_inv)

lemma events_no_new_game:
  "(game_over s \<longrightarrow> KEYDOWN K_SPACE \<notin> set evs) \<Longrightarrow>
   lives (foldl (\<lambda>st e. handle_event e st) s evs) = lives s \<and>
   game_over (foldl (\<lambda>st e. handle_event e st) s evs) = game_over s"
  by (induction evs arbitrary: s) (auto simp: handle_event_lives)

lemma example_rng_ok: "rng_ok example_rng"
  by (simp add: rng_ok_def draw_ok_def example_rng_def config_defs)

lemma example_start_reachable: "reachable example_start"
  unfolding example_start_def by (rule reachable.init) (rule example_rng_ok)

lemma handle_event_game_over:
  assumes "game_over s" "e \<noteq> KEYDOWN K_SPACE"
  shows "game_over (handle_event e s)" "lives (handle_event e s) = lives s"
    "bricks (handle_event e s) = bricks s" "balls_to_fire (handle_event e s) = balls_to_fire s"
    "score (handle_event e s) = score s" "high_score (handle_event e s) = high_score s"
    "highest_level (handle_event e s) = highest_level s"
  using assms by (auto simp: handle_event_def Let_def split: event.splits key.splits)

lemma events_game_over:
  assumes "game_over s" "KEYDOWN K_SPACE \<notin> set evs"
  shows "game_over (foldl (\<lambda>st e. handle_event e st) s evs) \<and>
     lives (foldl (\<lambda>st e. handle_event e st) s evs) = lives s \<and>
     bricks (foldl (\<lambda>st e. handle_event e st) s evs) = bricks s \<and>
     balls_to_fire (foldl (\<lambda>st e. handle_event e st) s evs) = balls_to_fire s \<and>
     score (foldl (\<lambda>st e. handle_event e st) s evs) = score s \<and>
     high_score (foldl (\<lambda>st e. handle_event e st) s evs) = high_score s \<and>
     highest_level (foldl (\<lambda>st e. handle_event e st) s evs) = highest_level s"
  using assms
proof (induction evs arbitrary: s)
  case Nil
  then show ?case by simp
next
  case (Cons e evs)
  from Cons.prems have e: "e \<noteq> KEYDOWN K_SPACE" and rest: "KEYDOWN K_SPACE \<notin> set evs" by auto
  note h = handle_event_game_over[OF Cons.prems(1) e]
  from Cons.IH[OF h(1) rest] show ?case by (simp add: h)
qed

lemma frame_game_over:
  assumes "game_over s" "KEYDOWN K_SPACE \<notin> set evs"
  shows "game_over (frame evs s)" "lives (frame evs s) = lives s"
    "bricks (frame evs s) = bricks s" "balls_to_fire (frame evs s) = balls_to_fire s"
    "score (frame evs s) = score s" "high_score (frame evs s) = high_score s"
    "highest_level (frame evs s) = highest_level s"
  using events_game_over[of "s\<lparr>frame_count := frame_count s + 1\<rparr>" evs] assms
  by (simp_all add: frame_def Let_def)

lemma frame_lives_step:
  assumes "\<not> game_over s"
  shows "lives s - 1 \<le> lives (frame evs s)" "lives (frame evs s) \<le> lives s"
proof -
  let ?s2 = "foldl (\<lambda>st e. handle_event e st) (s\<lparr>frame_count := frame_count s + 1\<rparr>) evs"
  have 2: "lives ?s2 = lives s \<and> game_over ?s2 = game_over s"
    using events_no_new_game[of "s\<lparr>frame_count := frame_count s + 1\<rparr>" evs] assms by simp
  have eq: "lives (frame evs s) = lives (play_step ?s2)"
    using 2 assms by (simp add: frame_def Let_def)
  show "lives s - 1 \<le> lives (frame evs s)" "lives (frame evs s) \<le> lives s"
    using play_step_lives[of ?s2] 2 assms eq by auto
qed

text \<open>
  Claim C10. In every reachable state the lives are not negative, and the game is over
  exactly when they are 0. A frame of a running game takes at most one life; a frame of
  a finished game with no SPACE key press leaves the lives, the bricks and the balls as
  they are and the game finished.
\<close>

theorem lives_never_negative:
  assumes "reachable s"
  shows "0 \<le> lives s \<and> (game_over s \<longleftrightarrow> lives s = 0) \<and>
     (\<not> game_over s \<longrightarrow> lives s - 1 \<le> lives (frame evs s) \<and> lives (frame evs s) \<le> lives s) \<and>
     (game_over t \<and> KEYDOWN K_SPACE \<notin> set evs \<longrightarrow>
        game_over (frame evs t) \<and> lives (frame evs t) = lives t \<and>
        bricks (frame evs t) = bricks t \<and> balls_to_fire (frame evs t) = balls_to_fire t)"
proof -
  from assms have "lives_inv s" by (rule reachable_lives_inv)
  then have "0 \<le> lives s \<and> (game_over s \<longleftrightarrow> lives s = 0)" by (simp add: lives_inv_def)
  moreover have "\<not> game_over s \<longrightarrow>
      lives s - 1 \<le> lives (frame evs s) \<and> lives (frame evs s) \<le> lives s"
    using frame_lives_step by blast
  moreover have "game_over t \<and> KEYDOWN K_SPACE \<notin> set evs \<longrightarrow>
        game_over (frame evs t) \<and> lives (frame evs t) = lives t \<and>
        bricks (frame evs t) = bricks t \<and> balls_to_fire (frame evs t) = balls_to_fire t"
    using frame_game_over by blast
  ultimately show ?thesis by blast
qed

theorem lives_never_negative_witness:
  "reachable example_start \<and> \<not> game_over example_start \<and> lives example_start = 3 \<and>
   2 \<le> lives (frame [] example_start) \<and>
   game_over example_over \<and> KEYDOWN K_SPACE \<notin> set [] \<and>
   lives (frame [] example_over) = 0 \<and> game_over (frame [] example_over)"
proof -
  have start: "\<not> game_over example_start" "lives example_start = 3"
    by (simp_all add: example_start_def initial_game_def)
  have over: "game_over example_over" "lives example_over = 0"
    by (simp_all add: example_over_def)
  show ?thesis
    using lives_never_negative[OF example_start_reachable, of "[]" example_over]
      example_start_reachable start over
    by simp
qed

subsection \<open>Score\<close>

lemma collision_pass_score:
  assumes "collision_pass b s = Some (b', s')"
  shows "score s' = score s + 10" "high_score s' = max (high_score s) (score s + 10)"
  using assms
  by (auto simp: collision_pass_def Let_def split: option.splits prod.splits if_splits)

lemma update_balls_score:
  assumes "update_balls bs s = (bs', s')" "score_inv s"
  shows "score_inv s' \<and> score s \<le> score s' \<and> high_score s \<le> high_score s'"
proof -
  let ?I = "\<lambda>t. score_inv t \<and> score s \<le> score t \<and> high_score s \<le> high_score t"
  have "?I s' \<and> (\<forall>b\<in>set bs'. True)"
  proof (rule update_balls_rule[where I = ?I and B = "\<lambda>_. True", OF _ _ _ _ assms(1)])
    fix b t b' t'
    assume "collision_pass b t = Some (b', t')" "?I t"
    then show "?I t' \<and> True"
      using collision_pass_score[of b t b' t'] by (auto simp: score_inv_def)
  qed (simp_all add: assms(2))
  then show ?thesis by simp
qed

lemma firing_step_score:
  assumes "score_inv s"
  shows "score_inv (firing_step s) \<and> score s \<le> score (firing_step s) \<and>
         high_score s \<le> high_score (firing_step s)"
proof -
  obtain balls s1 where u: "update_balls (balls_to_fire (launch_due s)) (launch_due s) = (balls, s1)"
    by (cases "update_balls (balls_to_fire (launch_due s)) (launch_due s)")
  have "score_inv (launch_due s)" using assms by (simp add: score_inv_def)
  from update_balls_score[OF u this] show ?thesis
    by (simp add: firing_step_eq[OF u] score_inv_def)
qed

lemma play_step_score:
  assumes "score_inv s"
  shows "score_inv (play_step s) \<and> score s \<le> score (play_step s) \<and>
         high_score s \<le> high_score (play_step s)"
  using firing_step_score[OF assms] assms
  by (simp add: play_step_def Let_def score_inv_def)

lemma handle_event_score:
  "score (handle_event e s) = (if game_over s \<and> e = KEYDOWN K_SPACE then 0 else score s)"
  "high_score (handle_event e s) = high_score s"
  by (auto simp: handle_event_def Let_def split: event.splits key.splits)

lemma events_score_inv:
  "score_inv s \<Longrightarrow>
   score_inv (foldl (\<lambda>st e. handle_event e st) s evs) \<and>
   high_score (foldl (\<lambda>st e. handle_event e st) s evs) = high_score s"
proof (induction evs arbitrary: s)
  case Nil
  then show ?case by simp
next
  case (Cons e evs)
  have "score_inv (handle_event e s)"
    using Cons.prems by (simp add: score_inv_def handle_event_score)
  from Cons.IH[OF this] show ?case by (simp add: handle_event_score)
qed

lemma events_score_same:
  "(game_over s \<longrightarrow> KEYDOWN K_SPACE \<notin> set evs) \<Longrightarrow>
   score (foldl (\<lambda>st e. handle_event e st) s evs) = score s"
proof (induction evs arbitrary: s)
  case Nil
  then show ?case by simp
next
  case (Cons e evs)
  have "game_over (handle_event e s) \<longrightarrow> KEYDOWN K_SPACE \<notin> set evs"
    using Cons.prems by (auto simp: handle_event_lives)
  from Cons.IH[OF this] Cons.prems show ?case by (auto simp: handle_event_score)
qed

lemma frame_score:
  assumes "score_inv s"
  shows "score_inv (frame evs s)" "high_score s \<le> high_score (frame evs s)"
    "(game_over s \<longrightarrow> KEYDOWN K_SPACE \<notin> set evs) \<Longrightarrow> score s \<le> score (frame evs s)"
proof -
  let ?s1 = "s\<lparr>frame_count := frame_count s + 1\<rparr>"
  let ?s2 = "foldl (\<lambda>st e. handle_event e st) ?s1 evs"
  let ?s3 = "if \<not> game_over ?s2 then play_step ?s2 else ?s2"
  have 1: "score_inv ?s1" using assms by (simp add: score_inv_def)
  from events_score_inv[OF 1] have 2: "score_inv ?s2" "high_score ?s2 = high_score s" by simp_all
  have 3: "score_inv ?s3 \<and> score ?s2 \<le> score ?s3 \<and> high_score ?s2 \<le> high_score ?s3"
    using play_step_score[OF 2(1)] 2(1) by simp
  have eq: "score (frame evs s) = score ?s3" "high_score (frame evs s) = high_score ?s3"
    by (simp_all add: frame_def Let_def)
  show "score_inv (frame evs s)" using 3 eq by (simp add: score_inv_def)
  show "high_score s \<le> high_score (frame evs s)" using 3 2(2) eq by simp
  show "score s \<le> score (frame evs s)" if "game_over s \<longrightarrow> KEYDOWN K_SPACE \<notin> set evs"
    using events_score_same[of ?s1 evs] that 3 eq by simp
qed

lemma reachable_score_inv: "reachable s \<Longrightarrow> score_inv s"
proof (induction rule: reachable.induct)
  case (init f)
  show ?case by (simp add: initial_game_def score_inv_def)
next
  case (step s evs)
  then show ?case by (simp add: frame_score)
qed

text \<open>
  Claim C7. In every reachable state the score is at most the high score (and not
  negative). A frame in which no new game is started (no SPACE key press while the game is
  over) does not lower the score; a new game sets it to 0 and keeps the high score.
\<close>

theorem score_monotone:
  assumes "reachable s"
  shows "0 \<le> score s \<and> score s \<le> high_score s \<and>
     ((game_over s \<longrightarrow> KEYDOWN K_SPACE \<notin> set evs) \<longrightarrow> score s \<le> score (frame evs s)) \<and>
     score (new_game s) = 0 \<and> high_score (new_game s) = high_score s"
  using reachable_score_inv[OF assms] frame_score(3)[of s evs]
  by (simp add: score_inv_def)

theorem score_monotone_witness:
  "reachable example_start \<and> \<not> game_over example_start \<and>
   score example_start \<le> high_score example_start \<and>
   score example_start \<le> score (frame [] example_start)"
proof -
  have "\<not> game_over example_start"
    by (simp add: example_start_def initial_game_def)
  then show ?thesis
    using score_monotone[OF example_start_reachable, of "[]"] example_start_reachable
    by simp
qed

subsection \<open>Columns\<close>

lemma first_collision_cells:
  "first_collision b brs = Some (b', brs') \<Longrightarrow> br' \<in> set brs' \<Longrightarrow>
   \<exists>br\<in>set brs. brick_col br' = brick_col br \<and> brick_row br' = brick_row br"
proof (induction brs arbitrary: brs')
  case Nil
  then show ?case by simp
next
  case (Cons a brs)
  show ?case
  proof (cases "ball_colliding_brick b a")
    case True
    with Cons.prems show ?thesis by (auto simp: Let_def split: if_splits)
  next
    case False
    with Cons.prems obtain rest where r: "first_collision b brs = Some (b', rest)"
      and eq: "brs' = a # rest" by auto
    from Cons.prems(2) eq have "br' = a \<or> br' \<in> set rest" by simp
    then show ?thesis
    proof
      assume "br' = a" then show ?thesis by simp
    next
      assume "br' \<in> set rest"
      from Cons.IH[OF r this] show ?thesis by auto
    qed
  qed
qed

lemma collision_pass_cols:
  assumes "collision_pass b s = Some (b', s')" "cols_inv s"
  shows "cols_inv s'"
proof -
  from assms(1) obtain brs' where f: "first_collision b (bricks s) = Some (b', brs')"
    and br: "bricks s' = brs'" and rng: "rng_outcomes s' = rng_outcomes s"
    by (auto simp: collision_pass_def Let_def split: option.splits prod.splits if_splits)
  show ?thesis
    unfolding cols_inv_def
  proof (intro conjI ballI)
    show "rng_ok (rng_outcomes s')" using assms(2) rng by (simp add: cols_inv_def)
  next
    fix br' assume "br' \<in> set (bricks s')"
    with br have "br' \<in> set brs'" by simp
    from first_collision_cells[OF f this] assms(2)
    show "0 \<le> brick_col br'" by (auto simp: cols_inv_def)
  next
    fix br' assume "br' \<in> set (bricks s')"
    with br have "br' \<in> set brs'" by simp
    from first_collision_cells[OF f this] assms(2)
    show "brick_col br' < BRICK_COLS" by (auto simp: cols_inv_def)
  qed
qed

lemma update_balls_cols:
  assumes "update_balls bs s = (bs', s')" "cols_inv s"
  shows "cols_inv s'"
proof -
  have "cols_inv s' \<and> (\<forall>b\<in>set bs'. True)"
    by (rule update_balls_rule[where I = cols_inv and B = "\<lambda>_. True", OF _ _ _ _ assms(1)])
       (simp_all add: assms(2) collision_pass_cols)
  then show ?thesis by simp
qed

lemma draw_ok_cols:
  assumes "rng_ok f" "c \<in> set (snd (f k))"
  shows "0 \<le> c \<and> c < BRICK_COLS"
proof -
  from assms(1) have "draw_ok (f k)" by (simp add: rng_ok_def)
  with assms(2) show ?thesis
    by (cases "f k") (auto simp: draw_ok_def list_all_iff)
qed

lemma firing_step_cols:
  assumes "cols_inv s"
  shows "cols_inv (firing_step s)"
proof -
  obtain balls s1 where u: "update_balls (balls_to_fire (launch_due s)) (launch_due s) = (balls, s1)"
    by (cases "update_balls (balls_to_fire (launch_due s)) (launch_due s)")
  have "cols_inv (launch_due s)" using assms by (simp add: cols_inv_def)
  from update_balls_cols[OF u this] have 1: "cols_inv s1" .
  then show ?thesis
    using draw_ok_cols[of "rng_outcomes s1"]
    by (auto simp: firing_step_eq[OF u] cols_inv_def Brick_def)
qed

lemma play_step_cols:
  assumes "cols_inv s"
  shows "cols_inv (play_step s)"
  using firing_step_cols[OF assms] assms
  by (auto simp: play_step_def Let_def cols_inv_def check_bricks_bottom_eq)

lemma handle_event_cols:
  assumes "cols_inv s"
  shows "cols_inv (handle_event e s)"
  using assms draw_ok_cols[of "rng_outcomes s"]
  by (auto simp: handle_event_def Let_def cols_inv_def Brick_def split: event.splits key.splits)

lemma events_cols: "cols_inv s \<Longrightarrow> cols_inv (foldl (\<lambda>st e. handle_event e st) s evs)"
  by (induction evs arbitrary: s) (simp_all add: handle_event_cols)

lemma frame_cols:
  assumes "cols_inv s"
  shows "cols_inv (frame evs s)"
proof -
  let ?s1 = "s\<lparr>frame_count := frame_count s + 1\<rparr>"
  let ?s2 = "foldl (\<lambda>st e. handle_event e st) ?s1 evs"
  let ?s3 = "if \<not> game_over ?s2 then play_step ?s2 else ?s2"
  have "cols_inv ?s1" using assms by (simp add: cols_inv_def)
  then have "cols_inv ?s2" by (rule events_cols)
  then have "cols_inv ?s3" by (simp add: play_step_cols)
  then show ?thesis by (simp add: frame_def Let_def cols_inv_def)
qed

lemma reachable_cols: "reachable s \<Longrightarrow> cols_inv s"
proof (induction rule: reachable.induct)
  case (init f)
  then show ?case
    using draw_ok_cols[of f]
    by (auto simp: initial_game_def cols_inv_def Brick_def)
next
  case (step s evs)
  then show ?case by (simp add: frame_cols)
qed

text \<open>
  Claim C8. When the random module keeps its contract (a count in \<open>[1, 4]\<close> and that many
  distinct columns of the grid), \<open>spawn_new_row\<close> appends between 1 and 4 bricks, at
  distinct columns of the grid, each at row 1 with the current level as its value; and
  every live brick of every reachable state is in a column of the grid.
\<close>

theorem spawn_new_row_bricks:
  assumes "rng_ok (rng_outcomes s)"
  shows "(\<exists>new. bricks (spawn_new_row s) = bricks s @ new \<and>
            1 \<le> length new \<and> length new \<le> 4 \<and> distinct (map brick_col new) \<and>
            (\<forall>br\<in>set new. brick_row br = 1 \<and> brick_value br = level s \<and>
                           0 \<le> brick_col br \<and> brick_col br < BRICK_COLS)) \<and>
         (reachable t \<longrightarrow>
            (\<forall>br\<in>set (bricks t). 0 \<le> brick_col br \<and> brick_col br < BRICK_COLS))"
proof -
  obtain count cols where d: "rng_outcomes s (rng_calls s) = (count, cols)"
    by (cases "rng_outcomes s (rng_calls s)")
  from assms have "draw_ok (rng_outcomes s (rng_calls s))" by (simp add: rng_ok_def)
  with d have ok: "1 \<le> count" "count \<le> 4" "int (length cols) = count" "distinct cols"
    "\<forall>c\<in>set cols. 0 \<le> c \<and> c < BRICK_COLS"
    by (simp_all add: draw_ok_def list_all_iff)
  let ?new = "map (\<lambda>c. Brick c 1 (level s)) cols"
  have cols: "map brick_col ?new = cols" by (simp add: Brick_def comp_def)
  have "bricks (spawn_new_row s) = bricks s @ ?new" using d by simp
  moreover have "1 \<le> length ?new \<and> length ?new \<le> 4" using ok(1-3) by simp
  moreover have "distinct (map brick_col ?new)" using ok(4) cols by simp
  moreover have "\<forall>br\<in>set ?new. brick_row br = 1 \<and> brick_value br = level s \<and>
                           0 \<le> brick_col br \<and> brick_col br < BRICK_COLS"
    using ok(5) by (auto simp: Brick_def)
  ultimately have first: "\<exists>new. bricks (spawn_new_row s) = bricks s @ new \<and>
            1 \<le> length new \<and> length new \<le> 4 \<and> distinct (map brick_col new) \<and>
            (\<forall>br\<in>set new. brick_row br = 1 \<and> brick_value br = level s \<and>
                           0 \<le> brick_col br \<and> brick_col br < BRICK_COLS)"
    by blast
  have "reachable t \<longrightarrow>
            (\<forall>br\<in>set (bricks t). 0 \<le> brick_col br \<and> brick_col br < BRICK_COLS)"
    using reachable_cols[of t] by (simp add: cols_inv_def)
  with first show ?thesis by blast
qed

theorem spawn_new_row_bricks_witness:
  "rng_ok (rng_outcomes example_start) \<and> reachable example_start \<and>
   bricks example_start = [Brick 0 1 1, Brick 3 1 1] \<and>
   bricks (spawn_new_row example_start) = [Brick 0 1 1, Brick 3 1 1, Brick 0 1 1, Brick 3 1 1] \<and>
   list_all (\<lambda>br. 0 \<le> brick_col br \<and> brick_col br < BRICK_COLS) (bricks example_start)"
proof -
  have rng: "rng_outcomes example_start = example_rng"
    by (simp add: example_start_def initial_game_def)
  have br: "bricks example_start = [Brick 0 1 1, Brick 3 1 1]"
    by (simp add: example_start_def initial_game_def example_rng_def)
  have lv: "level example_start = 1"
    by (simp add: example_start_def initial_game_def)
  show ?thesis
    using spawn_new_row_bricks[of example_start example_start] example_rng_ok
      example_start_reachable
    by (simp add: rng br lv example_rng_def list_all_iff)
qed

subsection \<open>The bottom rows\<close>

text \<open>
  Claim C5. When some live brick has row \<open>\<ge> MAX_ROWS - 1\<close> (row 9), \<open>check_bricks_bottom\<close>
  takes exactly one life, sets the lives-flash timer to 30, and moves every brick with
  row \<open>\<ge> MAX_ROWS - 3\<close> (row 7) from the live bricks to the dying list, each with a timer
  of 30.
\<close>

theorem check_bricks_bottom_breach:
  assumes "\<exists>br\<in>set (bricks s). MAX_ROWS - 1 \<le> brick_row br"
  shows "lives (check_bricks_bottom s) = lives s - 1 \<and>
     lives_flash_timer (check_bricks_bottom s) = 30 \<and>
     bricks (check_bricks_bottom s) = filter (\<lambda>br. brick_row br < MAX_ROWS - 3) (bricks s) \<and>
     dying_bricks (check_bricks_bottom s) =
       dying_bricks s @
       map (\<lambda>br. \<lparr>item_brick = br, item_timer = 30\<rparr>)
         (filter (\<lambda>br. MAX_ROWS - 3 \<le> brick_row br) (bricks s))"
proof -
  from assms have "\<exists>br\<in>set (bricks s). 9 \<le> brick_row br"
    by (simp add: config_defs)
  then show ?thesis by (simp add: check_bricks_bottom_eq)
qed

theorem check_bricks_bottom_breach_witness:
  "list_ex (\<lambda>br. MAX_ROWS - 1 \<le> brick_row br) (bricks example_breach) \<and>
   lives example_breach = 3 \<and>
   lives (check_bricks_bottom example_breach) = 2 \<and>
   lives_flash_timer (check_bricks_bottom example_breach) = 30 \<and>
   bricks (check_bricks_bottom example_breach) = [Brick 2 3 4] \<and>
   dying_bricks (check_bricks_bottom example_breach) =
     [\<lparr>item_brick = Brick 1 9 2, item_timer = 30\<rparr>,
      \<lparr>item_brick = Brick 4 7 3, item_timer = 30\<rparr>,
      \<lparr>item_brick = Brick 0 9 1, item_timer = 30\<rparr>]"
proof -
  have br: "bricks example_breach = [Brick 2 3 4, Brick 1 9 2, Brick 4 7 3, Brick 0 9 1]"
    and lv: "lives example_breach = 3" and dy: "dying_bricks example_breach = []"
    by (simp_all add: example_breach_def example_start_def initial_game_def)
  have hyp: "\<exists>br\<in>set (bricks example_breach). MAX_ROWS - 1 \<le> brick_row br"
    by (simp add: br Brick_def config_defs)
  show ?thesis
    using check_bricks_bottom_breach[OF hyp] hyp
    by (simp add: br lv dy Brick_def config_defs list_ex_iff)
qed

subsection \<open>The iteration cap\<close>

lemma sqrt_144: "sqrt 144 = 12"
  using real_sqrt_abs[of 12] by simp

lemmas geometry_defs =
  collision_pass_def ball_colliding_brick_def resolve_collision_def push_out_def
  collidepoint_def normalize_vec_def brick_rect_def rect_right_def rect_bottom_def
  clamp_def Brick_def Let_def

lemma pingpong_pass_left:
  "1 < v \<Longrightarrow>
   collision_pass (pingpong_ball 46 (36 / 5)) (pingpong_game a v w) =
     Some (pingpong_ball 54 (- (36 / 5)), pingpong_game (a + 10) (v - 1) w)"
  by (simp add: geometry_defs config_defs pingpong_ball_def pingpong_game_def sqrt_144)

lemma pingpong_pass_right:
  "1 < w \<Longrightarrow>
   collision_pass (pingpong_ball 54 (- (36 / 5))) (pingpong_game a v w) =
     Some (pingpong_ball 46 (36 / 5), pingpong_game (a + 10) v (w - 1))"
  by (simp add: geometry_defs config_defs pingpong_ball_def pingpong_game_def sqrt_144)

lemma pingpong_loop:
  "collision_loop 0 (pingpong_ball 46 (36 / 5)) (pingpong_game 0 20 20) =
     (pingpong_ball 46 (36 / 5), pingpong_game 100 15 15, 10)"
  by (simp add: collision_loop.simps pingpong_pass_left pingpong_pass_right)

text \<open>
  Claim C9. The collision loop of a ball makes at least one and at most 10 passes and
  then returns (it is a total function: there is no error to raise). Whenever the ball
  still overlaps a brick on return, the loop has made all 10 passes; the next frame
  starts the loop again from 0 passes.
\<close>

theorem collision_loop_capped:
  "case collision_loop 0 b s of
     (b', s', n) \<Rightarrow> 1 \<le> n \<and> n \<le> 10 \<and> (collision_pass b' s' \<noteq> None \<longrightarrow> n = 10)"
proof -
  obtain b' s' n where r: "collision_loop 0 b s = (b', s', n)"
    by (cases "collision_loop 0 b s")
  have "n \<le> 10 \<and> (collision_pass b' s' \<noteq> None \<longrightarrow> n = 10)"
    using collision_loop_count[OF r] by simp
  moreover have "1 \<le> n"
  proof (cases "collision_pass b s")
    case None
    with r show ?thesis by (simp add: collision_loop.simps)
  next
    case (Some p)
    then obtain b1 s1 where "collision_loop 1 b1 s1 = (b', s', n)"
      using r by (cases p) (simp add: collision_loop.simps)
    from collision_loop_count[OF this] show ?thesis by simp
  qed
  ultimately show ?thesis using r by simp
qed

theorem collision_loop_capped_witness:
  "collision_pass (pingpong_ball 46 (36 / 5)) (pingpong_game 100 15 15) \<noteq> None \<and>
   snd (snd (collision_loop 0 (pingpong_ball 46 (36 / 5)) (pingpong_game 0 20 20))) = 10"
  using collision_loop_capped[of "pingpong_ball 46 (36 / 5)" "pingpong_game 0 20 20"]
  by (simp add: pingpong_loop pingpong_pass_left)

subsection \<open>A new game\<close>

text \<open>
  Claim C2 (the code departs from it). A SPACE key press in a finished game whose session
  had reached level 5 starts a new game that keeps the high score but sets
  \<open>highest_level\<close> back to 1.
\<close>

theorem new_game_resets_highest_level:
  "game_over example_over \<and> highest_level example_over = 5 \<and>
   highest_level (handle_event (KEYDOWN K_SPACE) example_over) = 1 \<and>
   high_score (handle_event (KEYDOWN K_SPACE) example_over) = high_score example_over \<and>
   score (handle_event (KEYDOWN K_SPACE) example_over) = 0 \<and>
   lives (handle_event (KEYDOWN K_SPACE) example_over) = 3 \<and>
   level (handle_event (KEYDOWN K_SPACE) example_over) = 1"
  by (simp add: example_over_def handle_event_def)

subsection \<open>Frames of the example states\<close>

lemma example_start_fields:
  "bricks example_start = [Brick 0 1 1, Brick 3 1 1]" "score example_start = 0"
  "high_score example_start = 0" "lives example_start = 3" "level example_start = 1"
  "dying_bricks example_start = []" "\<not> game_over example_start"
  "lives_flash_timer example_start = 0" "rng_outcomes example_start = example_rng"
  "rng_calls example_start = 1" "returned_ball_positions example_start = []"
  "base_x example_start = 150" "\<not> firing example_start" "balls_to_fire example_start = []"
  "frame_count example_start = 0" "highest_level example_start = 1"
  "base_ball_count example_start = 2" "running example_start"
  by (simp_all add: example_start_def initial_game_def example_rng_def config_defs
      get_ball_count_def)

lemmas frame_defs =
  frame_def play_step_def firing_step_def launch_due_def round_over_def tick_dying_def
  check_bricks_bottom_def Ball_update_def

lemma example_hit_frame:
  "bricks (frame [] example_hit) = [Brick 0 1 1] \<and>
   score (frame [] example_hit) = 10 \<and>
   dying_bricks (frame [] example_hit) = []"
  by (simp add: example_hit_def example_start_fields frame_defs geometry_defs config_defs
      collision_loop.simps sqrt_144)


subsection \<open>A brick destroyed by a hit\<close>

lemma first_collision_at:
  assumes "\<forall>p\<in>set pre. \<not> ball_colliding_brick b p" "ball_colliding_brick b br"
  shows "first_collision b (pre @ br # post) =
     Some (resolve_collision (b\<lparr>ball_collision_cooldown := 10\<rparr>)
             (br\<lparr>brick_value := brick_value br - 1\<rparr>),
           pre @ (if brick_value br - 1 \<le> 0 then post
                  else br\<lparr>brick_value := brick_value br - 1\<rparr> # post))"
  using assms by (induction pre) (simp_all add: Let_def)

text \<open>
  Claim C1, as the code has it. When the first brick that a ball overlaps has value 1,
  that pass of the collision loop removes it from the live bricks and adds 10 to the
  score, and it leaves the dying list as it is; the whole ball phase of a frame
  (\<open>firing_step\<close>) never changes the dying list. Dying entries come from
  \<open>remove_bottom_rows\<close> only.
\<close>

theorem single_hit_removes_brick:
  assumes "bricks s = pre @ br # post"
    and "\<forall>p\<in>set pre. \<not> ball_colliding_brick b p"
    and "ball_colliding_brick b br"
    and "brick_value br = 1"
  shows "(\<exists>b' s'. collision_pass b s = Some (b', s') \<and> bricks s' = pre @ post \<and>
            score s' = score s + 10 \<and> dying_bricks s' = dying_bricks s) \<and>
         dying_bricks (firing_step t) = dying_bricks t"
  using first_collision_at[OF assms(2,3), of post] assms(1,4)
  by (simp add: collision_pass_def Let_def firing_step_keeps)

theorem single_hit_removes_brick_witness:
  "bricks example_hit = [Brick 0 1 1] @ Brick 3 1 1 # [] \<and>
   \<not> ball_colliding_brick (Ball_update (hd (balls_to_fire example_hit))) (Brick 0 1 1) \<and>
   ball_colliding_brick (Ball_update (hd (balls_to_fire example_hit))) (Brick 3 1 1) \<and>
   brick_value (Brick 3 1 1) = 1 \<and>
   (\<exists>b' s'. collision_pass (Ball_update (hd (balls_to_fire example_hit))) example_hit
              = Some (b', s') \<and>
            bricks s' = [Brick 0 1 1] \<and> score s' = 10 \<and> dying_bricks s' = [])"
proof -
  let ?b = "Ball_update (hd (balls_to_fire example_hit))"
  have br: "bricks example_hit = [Brick 0 1 1] @ Brick 3 1 1 # []"
    and sc: "score example_hit = 0" and dy: "dying_bricks example_hit = []"
    by (simp_all add: example_hit_def example_start_fields)
  have pre: "\<forall>p\<in>set [Brick 0 1 1]. \<not> ball_colliding_brick ?b p"
    by (simp add: example_hit_def Ball_update_def geometry_defs config_defs)
  have hit: "ball_colliding_brick ?b (Brick 3 1 1)"
    by (simp add: example_hit_def Ball_update_def geometry_defs config_defs)
  have v: "brick_value (Brick 3 1 1) = 1" by (simp add: Brick_def)
  show ?thesis
    using single_hit_removes_brick[OF br pre hit v] br pre hit v
    by (simp add: sc dy)
qed

text \<open>
  Against claim C1 as stated: in one frame the ball of \<open>example_hit\<close> destroys the brick
  of column 3, whose value is 1, and the score goes from 0 to 10, but the dying list is
  still empty: no dying-brick entry has been created.
\<close>

theorem hit_creates_no_dying_entry:
  "bricks example_hit = [Brick 0 1 1, Brick 3 1 1] \<and> score example_hit = 0 \<and>
   dying_bricks example_hit = [] \<and>
   bricks (frame [] example_hit) = [Brick 0 1 1] \<and>
   score (frame [] example_hit) = 10 \<and>
   dying_bricks (frame [] example_hit) = [] \<and>
   dying_bricks (firing_step example_hit) = []"
proof -
  have "bricks example_hit = [Brick 0 1 1, Brick 3 1 1] \<and> score example_hit = 0 \<and>
      dying_bricks example_hit = []"
    by (simp add: example_hit_def example_start_fields)
  moreover have "dying_bricks (firing_step example_hit) = []"
    by (simp add: firing_step_keeps example_hit_def example_start_fields)
  ultimately show ?thesis using example_hit_frame by simp
qed

subsection \<open>Containment\<close>





subsection \<open>The end of a round\<close>

lemma reset_for_next_turn_base_x:
  "base_x (reset_for_next_turn s) =
     (case returned_ball_positions s of
        [] \<Rightarrow> base_x s
      | new_base_x # _ \<Rightarrow>
          max BALL_RADIUS (min (SCREEN_WIDTH - BALL_RADIUS) (py_int new_base_x)))"
  by (simp add: reset_for_next_turn_def move_bricks_down_def Let_def split: list.splits)

text \<open>
  Claim C6, as the code has it. Let \<open>balls\<close> be the shot list after the ball loop of a
  frame in which balls are being fired. If every ball of it is launched and inactive,
  the same frame clears \<open>firing\<close>, adds exactly 1 to the level, sets the launch origin to
  the x-position of the first ball, truncated towards zero to an integer and then clamped
  to \<open>[BALL_RADIUS, SCREEN_WIDTH - BALL_RADIUS]\<close>, and replaces the bricks by the old ones
  one row lower followed by the new row, at row 1. Otherwise \<open>firing\<close>, the level and
  the launch origin stay as they are.
\<close>

theorem round_completion:
  assumes "update_balls (balls_to_fire (launch_due s)) (launch_due s) = (balls, s1)"
    and "firing s" and "returned_ball_positions s = []" and "balls \<noteq> []"
  shows "(round_over balls \<longrightarrow>
            \<not> firing (firing_step s) \<and> level (firing_step s) = level s + 1 \<and>
            base_x (firing_step s) =
              max BALL_RADIUS (min (SCREEN_WIDTH - BALL_RADIUS) (py_int (ball_x (hd balls)))) \<and>
            bricks (firing_step s) =
              map (\<lambda>br. br\<lparr>brick_row := brick_row br + 1\<rparr>) (bricks s1) @
              map (\<lambda>c. Brick c 1 (level s + 1)) (snd (rng_outcomes s (rng_calls s))) \<and>
            balls_to_fire (firing_step s) = []) \<and>
         (\<not> round_over balls \<longrightarrow>
            firing (firing_step s) \<and> level (firing_step s) = level s \<and>
            base_x (firing_step s) = base_x s \<and> balls_to_fire (firing_step s) = balls)"
proof -
  note h = hits_only_fields[OF update_balls_hits_only[OF assms(1)]]
  have base: "base_x (launch_due s) = base_x s" by (simp add: launch_due_def)
  from assms(4) obtain b bs where balls: "balls = b # bs" by (cases balls) auto
  show ?thesis
    using assms(2,3)
    by (simp add: firing_step_eq[OF assms(1)] h base balls reset_for_next_turn_base_x)
qed

theorem round_completion_witness:
  "update_balls (balls_to_fire (launch_due example_returned)) (launch_due example_returned)
     = (balls_to_fire example_returned, example_returned) \<and>
   firing example_returned \<and> returned_ball_positions example_returned = [] \<and>
   balls_to_fire example_returned \<noteq> [] \<and> round_over (balls_to_fire example_returned) \<and>
   \<not> firing (firing_step example_returned) \<and>
   level (firing_step example_returned) = 2 \<and>
   base_x (firing_step example_returned) = 17 \<and>
   bricks (firing_step example_returned) =
     [Brick 0 2 1, Brick 3 2 1, Brick 0 1 2, Brick 3 1 2]"
proof -
  have ld: "launch_due example_returned = example_returned"
    by (simp add: launch_due_def example_returned_def)
  have u: "update_balls (balls_to_fire (launch_due example_returned)) (launch_due example_returned)
     = (balls_to_fire example_returned, example_returned)"
    unfolding ld by (simp add: example_returned_def)
  have f: "firing example_returned" and r: "returned_ball_positions example_returned = []"
    and ne: "balls_to_fire example_returned \<noteq> []"
    and ro: "round_over (balls_to_fire example_returned)"
    by (simp_all add: example_returned_def example_start_fields round_over_def)
  show ?thesis
    using round_completion[OF u f r ne] u f r ne ro
    by (simp add: example_returned_def example_start_fields example_rng_def py_int_def
        config_defs Brick_def)
qed

text \<open>
  Against claim C6 as stated: the round of \<open>example_returned\<close> ends in this frame, its
  first recorded position is 17.5, inside \<open>[BALL_RADIUS, SCREEN_WIDTH - BALL_RADIUS]\<close>,
  and the next launch origin is 17.
\<close>

theorem launch_origin_truncated:
  "firing example_returned \<and> \<not> firing (frame [] example_returned) \<and>
   level (frame [] example_returned) = level example_returned + 1 \<and>
   map ball_x (balls_to_fire example_returned) = [35 / 2] \<and>
   clamp (35 / 2) (real_of_int BALL_RADIUS) (real_of_int (SCREEN_WIDTH - BALL_RADIUS)) = 35 / 2 \<and>
   base_x (frame [] example_returned) = 17"
  by (simp add: example_returned_def example_start_fields frame_defs config_defs clamp_def
      reset_for_next_turn_def move_bricks_down_def get_ball_count_def py_int_def
      spawn_new_row_def example_rng_def remove_bottom_rows_def Brick_def)

subsection \<open>Speed\<close>
























end
